theory Spec2Isabelle
  imports Main "HOL-Library.AList"
begin

section \<open>Python values, exceptions and warnings\<close>

text \<open>
  A shallow embedding of \<^verbatim>\<open>trod/model_/core.py\<close>. Plain Python data is a \<open>pyval\<close>;
  a dict is an association list in insertion order (Python dicts keep it), read with
  \<open>map_of\<close> and written with \<open>AList.update\<close> and \<open>AList.delete\<close>.
\<close>

datatype pyval =
    PNone
  | PBool bool
  | PInt int
  | PStr string
  | PList "pyval list"
  | PTuple "pyval list"
  | PDict "(string \<times> pyval) list"

text \<open>Python truthiness, as \<^verbatim>\<open>not x\<close> and \<^verbatim>\<open>if x\<close> read it.\<close>

fun truthy :: "pyval \<Rightarrow> bool" where
  "truthy PNone = False"
| "truthy (PBool b) = b"
| "truthy (PInt i) = (i \<noteq> 0)"
| "truthy (PStr s) = (s \<noteq> [])"
| "truthy (PList xs) = (xs \<noteq> [])"
| "truthy (PTuple xs) = (xs \<noteq> [])"
| "truthy (PDict d) = (d \<noteq> [])"

text \<open>
  The exceptions the module raises, each with the value its message interpolates.
  \<open>RecursionError\<close> is what the interpreter raises when the call depth is used up
  (it is a subclass of \<open>RuntimeError\<close> in Python).
\<close>

datatype error =
    DuplicateFieldNameError string
  | DuplicatePKError string
  | InvalidFieldType "string option"
  | NoPKError string
  | ModelSetAttrError string
  | ModifyAutoPkError
  | AttributeError string
  | KeyError string
  | TypeError
  | ValueError
  | RuntimeError
  | RecursionError

text \<open>
  Both warnings are of category \<^verbatim>\<open>errors.ProgrammingWarning\<close>: the missing table name
  (with the model name it interpolates) and the name of an AUTO_INCREMENT primary key.
\<close>

datatype warning = NoTableNameWarning string | AutoPKNameWarning

text \<open>What a function leaves behind: the warnings emitted so far, and a result or the
  exception that ended it.\<close>

type_synonym 'a outcome = "warning list \<times> (error + 'a)"

section \<open>Fields, indexes and tables\<close>

text \<open>
  Modelled from the spec: \<^verbatim>\<open>types.__real__.FieldBase\<close> is not in the source. A field
  descriptor has a name (\<open>None\<close> until one is given), the primary-key flag, the
  AUTO_INCREMENT setting \<open>ai\<close> (number-like, the code reads \<^verbatim>\<open>int(field.ai)\<close>; \<open>0\<close> is
  unset) and the optional default-value producer (\<open>Some v\<close>: the field is callable and
  returns \<open>v\<close>).
\<close>

record field =
  f_name :: "string option"
  f_pk :: bool
  f_ai :: int
  f_default :: "pyval option"

text \<open>Modelled from the spec: \<^verbatim>\<open>types.__real__.IndexBase\<close> is not in the source.\<close>

record index =
  i_name :: string
  i_fields :: "string list"

text \<open>The value of a class-body attribute: a field, an index, plain data, or a
  sequence of such values.\<close>

datatype aval =
    AField field
  | AIndex index
  | AVal pyval
  | ASeq "aval list"

fun aval_truthy :: "aval \<Rightarrow> bool" where
  "aval_truthy (AVal v) = truthy v"
| "aval_truthy (ASeq xs) = (xs \<noteq> [])"
| "aval_truthy (AField f) = True"
| "aval_truthy (AIndex i) = True"

text \<open>\<^verbatim>\<open>utils.Tdict(auto=False, field=None, ai=None)\<close>\<close>

record pk_info =
  pk_auto :: bool
  pk_field :: "field option"
  pk_ai :: "int option"

text \<open>
  Modelled from the spec: \<^verbatim>\<open>tables.Table\<close> is not in the source. A table holds what its
  constructor is given; \<open>t_fields_dict\<close> is the ordered mapping of field names to fields.
\<close>

record table =
  t_database :: aval
  t_name :: string
  t_fields_dict :: "(string \<times> field) list"
  t_pk :: pk_info
  t_indexes :: "aval list"
  t_charset :: aval
  t_comment :: aval

datatype obj = OTable table | OAttr aval

text \<open>The names the module reads from other modules: \<^verbatim>\<open>tables.Table.DEFAULT\<close>,
  \<^verbatim>\<open>tables.Table.AIPK\<close> and \<^verbatim>\<open>types.SEQUENCE\<close>.\<close>

record env =
  DEFAULT :: "string list"
  AIPK :: string
  SEQUENCE :: aval

section \<open>Dict and string primitives\<close>

text \<open>\<^verbatim>\<open>d.pop(k, default)\<close> and \<^verbatim>\<open>d.pop(k)\<close>: the value and the dict without the key.\<close>

definition dict_pop :: "string \<Rightarrow> 'v \<Rightarrow> (string \<times> 'v) list \<Rightarrow> 'v \<times> (string \<times> 'v) list" where
  "dict_pop k d al = (case map_of al k of Some v \<Rightarrow> (v, AList.delete k al) | None \<Rightarrow> (d, al))"

text \<open>
  \<^verbatim>\<open>str.lower\<close>, exact on ASCII text: the letters A to Z are replaced and any other
  character is kept. Python also lowers letters outside ASCII, which a \<open>char\<close> (a byte)
  does not hold, so statements that name the lowered text are made for ASCII names.
\<close>

definition is_ascii :: "string \<Rightarrow> bool" where
  "is_ascii s = list_all (\<lambda>c. \<not> digit7 c) s"

definition lower_char :: "char \<Rightarrow> char" where
  "lower_char c =
     (case map_of (zip ''ABCDEFGHIJKLMNOPQRSTUVWXYZ'' ''abcdefghijklmnopqrstuvwxyz'') c of
        Some l \<Rightarrow> l
      | None \<Rightarrow> c)"

definition py_lower :: "string \<Rightarrow> string" where
  "py_lower s = map lower_char s"

text \<open>\<^verbatim>\<open>field.name or attr\<close>\<close>

definition name_or :: "string option \<Rightarrow> string \<Rightarrow> string" where
  "name_or n attr = (case n of None \<Rightarrow> attr | Some s \<Rightarrow> if s \<noteq> [] then s else attr)"

text \<open>
  The builtin \<^verbatim>\<open>isinstance\<close> takes exactly two arguments. Line 62 calls it with one,
  \<^verbatim>\<open>isinstance(types.SEQUENCE)\<close>, which raises \<open>TypeError\<close> whatever the argument is.
\<close>

definition isinstance1 :: "aval \<Rightarrow> error + bool" where
  "isinstance1 x = Inl TypeError"

text \<open>Iterating a value with \<^verbatim>\<open>for index in indexes\<close>: the elements, or \<open>TypeError\<close>
  for a value that is not iterable.\<close>

fun py_iter :: "aval \<Rightarrow> error + aval list" where
  "py_iter (ASeq xs) = Inr xs"
| "py_iter (AVal (PList xs)) = Inr (map AVal xs)"
| "py_iter (AVal (PTuple xs)) = Inr (map AVal xs)"
| "py_iter (AVal (PDict d)) = Inr (map (\<lambda>kv. AVal (PStr (fst kv))) d)"
| "py_iter (AVal (PStr s)) = Inr (map (\<lambda>c. AVal (PStr [c])) s)"
| "py_iter (AVal PNone) = Inl TypeError"
| "py_iter (AVal (PBool b)) = Inl TypeError"
| "py_iter (AVal (PInt i)) = Inl TypeError"
| "py_iter (AField f) = Inl TypeError"
| "py_iter (AIndex i) = Inl TypeError"

fun is_index :: "aval \<Rightarrow> bool" where
  "is_index (AIndex i) = True"
| "is_index v = False"

section \<open>Schema registration: \<^verbatim>\<open>_ModelMeta.__prepare__\<close>\<close>

text \<open>
  The embedding is of the body of \<^verbatim>\<open>__prepare__\<close> as a function of the class name and the
  class body \<^verbatim>\<open>attrs\<close>, the two arguments \<^verbatim>\<open>__new__\<close> passes on line 14.
\<close>

text \<open>The state of the field scan: the class body being emptied, the fields collected
  so far and the primary key.\<close>

record scan_state =
  st_attrs :: "(string \<times> aval) list"
  st_fields :: "(string \<times> field) list"
  st_pk :: pk_info

text \<open>
  One turn of the loop \<^verbatim>\<open>for attr in attrs.copy()\<close> (lines 30 to 54). The check for a
  duplicate field name comes first, then the attribute is popped; a field takes its
  name from the attribute unless it has one, a primary-key field is registered (a
  second one raises), anything else must bear a reserved name. A field object is read
  as true in \<^verbatim>\<open>pk.field and ...\<close> and \<^verbatim>\<open>not pk.field\<close>. Fields are values here: line 35
  writes the name into the field object, so for one object that stands under two keys
  the code keeps the name of its first key, where this function names each occurrence
  by its own key. The name an exception reports for a field is therefore stated only
  for a field whose value does not occur earlier in the body.
\<close>

definition scan_step :: "env \<Rightarrow> string \<Rightarrow> warning list \<Rightarrow> scan_state \<Rightarrow> scan_state outcome" where
  "scan_step E attr ws s =
     (if (case pk_field (st_pk s) of Some pf \<Rightarrow> f_name pf = Some attr | None \<Rightarrow> False)
      then (ws, Inl (DuplicateFieldNameError attr))
      else
        (case map_of (st_attrs s) attr of
           None \<Rightarrow> (ws, Inl (KeyError attr))
         | Some v \<Rightarrow>
             (let rest = AList.delete attr (st_attrs s) in
              case v of
                AField f0 \<Rightarrow>
                  (let nm = name_or (f_name f0) attr;
                       f = f0\<lparr>f_name := Some nm\<rparr>
                   in if f_pk f then
                        (if pk_field (st_pk s) \<noteq> None then (ws, Inl (DuplicatePKError nm))
                         else
                           (let pk1 = (st_pk s)\<lparr>pk_field := Some f\<rparr>;
                                pk2 = (if f_ai f \<noteq> 0
                                       then pk1\<lparr>pk_auto := True, pk_ai := Some (f_ai f)\<rparr>
                                       else pk1);
                                ws2 = (if f_ai f \<noteq> 0 \<and> nm \<noteq> AIPK E
                                       then ws @ [AutoPKNameWarning] else ws)
                            in (ws2, Inr \<lparr>st_attrs = rest,
                                          st_fields = AList.update attr f (st_fields s),
                                          st_pk = pk2\<rparr>)))
                      else (ws, Inr \<lparr>st_attrs = rest,
                                     st_fields = AList.update attr f (st_fields s),
                                     st_pk = st_pk s\<rparr>))
              | _ \<Rightarrow>
                  (if attr \<notin> set (DEFAULT E) then (ws, Inl (InvalidFieldType (Some attr)))
                   else (ws, Inr (s\<lparr>st_attrs := rest\<rparr>))))))"

text \<open>The loop over the keys of the snapshot \<^verbatim>\<open>attrs.copy()\<close>; an exception ends it.\<close>

fun scan :: "env \<Rightarrow> string list \<Rightarrow> warning list \<Rightarrow> scan_state \<Rightarrow> scan_state outcome" where
  "scan E [] ws s = (ws, Inr s)"
| "scan E (attr # ks) ws s =
     (case scan_step E attr ws s of
        (ws', Inl e) \<Rightarrow> (ws', Inl e)
      | (ws', Inr s') \<Rightarrow> scan E ks ws' s')"

text \<open>What the first part of \<^verbatim>\<open>__prepare__\<close> hands to the second.\<close>

record scanned =
  sc_bound :: aval
  sc_table_name :: string
  sc_state :: scan_state

text \<open>
  Lines 18 to 59: the reserved keys \<^verbatim>\<open>__db__\<close> and \<^verbatim>\<open>__table__\<close> are popped, the warning
  for a missing table name is emitted, the table name is set from the class name
  (line 25 is not under the \<^verbatim>\<open>if\<close>), the fields are scanned and the primary key must
  have been found.
\<close>

definition prepare_scan :: "env \<Rightarrow> string \<Rightarrow> (string \<times> aval) list \<Rightarrow> scanned outcome" where
  "prepare_scan E name attrs =
     (let (bound, a1) = dict_pop ''__db__'' (AVal PNone) attrs;
          (given_name, a2) = dict_pop ''__table__'' (AVal PNone) a1;
          ws = (if \<not> aval_truthy given_name then [NoTableNameWarning name] else []);
          table_name = py_lower name
      in case scan E (map fst a2) ws
                \<lparr>st_attrs = a2, st_fields = [],
                 st_pk = \<lparr>pk_auto = False, pk_field = None, pk_ai = None\<rparr>\<rparr> of
           (ws', Inl e) \<Rightarrow> (ws', Inl e)
         | (ws', Inr s) \<Rightarrow>
             (if pk_field (st_pk s) = None then (ws', Inl (NoPKError table_name))
              else (ws', Inr \<lparr>sc_bound = bound, sc_table_name = table_name, sc_state = s\<rparr>)))"

text \<open>
  Lines 61 to 74: the indexes are popped and validated and the table is built and stored
  under \<^verbatim>\<open>__table__\<close>. The keyword arguments of \<^verbatim>\<open>tables.Table\<close> are evaluated in order, so
  \<^verbatim>\<open>__charset__\<close> is popped before \<^verbatim>\<open>__comment__\<close>.
\<close>

definition prepare_table :: "env \<Rightarrow> warning list \<Rightarrow> scanned \<Rightarrow> (string \<times> obj) list outcome" where
  "prepare_table E ws sc =
     (let s = sc_state sc;
          (indexes, a3) = dict_pop ''__indexes__'' (AVal (PTuple [])) (st_attrs s)
      in case isinstance1 (SEQUENCE E) of
           Inl e \<Rightarrow> (ws, Inl e)
         | Inr is_seq \<Rightarrow>
             (if \<not> is_seq then (ws, Inl TypeError)
              else
                (case py_iter indexes of
                   Inl e \<Rightarrow> (ws, Inl e)
                 | Inr ixs \<Rightarrow>
                     (if list_ex (\<lambda>ix. \<not> is_index ix) ixs then (ws, Inl (InvalidFieldType None))
                      else
                        (let (charset, a4) = dict_pop ''__charset__'' (AVal PNone) a3;
                             (comment, a5) = dict_pop ''__comment__'' (AVal PNone) a4;
                             t = \<lparr>t_database = sc_bound sc, t_name = sc_table_name sc,
                                  t_fields_dict = st_fields s, t_pk = st_pk s,
                                  t_indexes = ixs, t_charset = charset, t_comment = comment\<rparr>
                         in (ws, Inr (AList.update ''__table__'' (OTable t)
                                        (map (\<lambda>kv. (fst kv, OAttr (snd kv))) a5))))))))"

definition prepare :: "env \<Rightarrow> string \<Rightarrow> (string \<times> aval) list \<Rightarrow> (string \<times> obj) list outcome" where
  "prepare E name attrs =
     (case prepare_scan E name attrs of
        (ws, Inl e) \<Rightarrow> (ws, Inl e)
      | (ws, Inr sc) \<Rightarrow> prepare_table E ws sc)"


text \<open>
  The attributes the field scan sees: the body once \<^verbatim>\<open>__db__\<close> and \<^verbatim>\<open>__table__\<close> are popped.
\<close>

definition declared :: "(string \<times> aval) list \<Rightarrow> (string \<times> aval) list" where
  "declared attrs = AList.delete ''__table__'' (AList.delete ''__db__'' attrs)"

text \<open>The names of the fields of a body that are marked primary key, in declaration
  order, each as registration names it.\<close>

fun pk_names :: "(string \<times> aval) list \<Rightarrow> string list" where
  "pk_names [] = []"
| "pk_names ((k, AField f) # xs) =
     (if f_pk f then name_or (f_name f) k # pk_names xs else pk_names xs)"
| "pk_names ((k, v) # xs) = pk_names xs"

fun is_field :: "aval \<Rightarrow> bool" where
  "is_field (AField f) = True"
| "is_field v = False"

text \<open>Every attribute that is not a field bears a reserved name.\<close>

definition reserved_ok :: "env \<Rightarrow> (string \<times> aval) list \<Rightarrow> bool" where
  "reserved_ok E xs = list_all (\<lambda>kv. is_field (snd kv) \<or> fst kv \<in> set (DEFAULT E)) xs"

text \<open>No attribute declared after a primary-key field has that field's name as its key
  (the case the duplicate-field-name check of line 31 catches).\<close>

fun no_name_clash :: "(string \<times> aval) list \<Rightarrow> bool" where
  "no_name_clash [] = True"
| "no_name_clash ((k, AField f) # xs) =
     ((if f_pk f then name_or (f_name f) k \<notin> set (map fst xs) else True) \<and> no_name_clash xs)"
| "no_name_clash ((k, v) # xs) = no_name_clash xs"

text \<open>The collected fields that are marked primary key.\<close>

definition pk_marked :: "(string \<times> field) list \<Rightarrow> field list" where
  "pk_marked fs = filter f_pk (map snd fs)"

text \<open>The invariant of the scan: a collected field has left the body, and the fields
  marked primary key are exactly the registered one, if any.\<close>

definition scan_inv :: "scan_state \<Rightarrow> bool" where
  "scan_inv s =
     (fst ` set (st_fields s) \<inter> fst ` set (st_attrs s) = {}
      \<and> pk_marked (st_fields s) = (case pk_field (st_pk s) of None \<Rightarrow> [] | Some f \<Rightarrow> [f]))"

section \<open>Model classes: \<^verbatim>\<open>_ModelMeta.__getattr__\<close> and \<^verbatim>\<open>_ModelMeta.__setattr__\<close>\<close>

text \<open>
  A model class with a table: its name, the table under \<^verbatim>\<open>__table__\<close>, and its other
  class attributes. The declared fields are not among them: registration pops every
  attribute of the body.
\<close>

record model_class =
  cls_name :: string
  cls_table :: table
  cls_attrs :: "(string \<times> aval) list"

text \<open>Normal class-attribute lookup (\<^verbatim>\<open>type.__getattribute__\<close>); \<open>None\<close> stands for its
  \<open>AttributeError\<close>.\<close>

definition type_getattribute :: "model_class \<Rightarrow> string \<Rightarrow> obj option" where
  "type_getattribute cls key =
     (if key = ''__table__'' then Some (OTable (cls_table cls))
      else if key = ''__name__'' then Some (OAttr (AVal (PStr (cls_name cls))))
      else map_option OAttr (map_of (cls_attrs cls) key))"

text \<open>
  \<^verbatim>\<open>getattr(cls, key)\<close>: normal lookup, and when that fails the hook \<^verbatim>\<open>__getattr__\<close> of
  the metaclass.
\<close>

definition class_getattr ::
  "(model_class \<Rightarrow> string \<Rightarrow> error + obj) \<Rightarrow> model_class \<Rightarrow> string \<Rightarrow> error + obj" where
  "class_getattr hook cls key =
     (case type_getattribute cls key of Some v \<Rightarrow> Inr v | None \<Rightarrow> hook cls key)"

text \<open>
  \<^verbatim>\<open>_ModelMeta.__getattr__\<close> (lines 76 to 86). Its first statement is \<^verbatim>\<open>getattr(cls, key)\<close>,
  which enters the hook again when the normal lookup fails. The first argument is the
  call depth the interpreter still allows: at depth \<open>0\<close> the call raises \<open>RecursionError\<close>,
  which \<^verbatim>\<open>except AttributeError\<close> does not catch.
\<close>

fun meta_getattr :: "nat \<Rightarrow> model_class \<Rightarrow> string \<Rightarrow> error + obj" where
  "meta_getattr 0 cls key = Inl RecursionError"
| "meta_getattr (Suc depth) cls key =
     (case class_getattr (meta_getattr depth) cls key of
        Inr v \<Rightarrow> Inr v
      | Inl (AttributeError m) \<Rightarrow>
          (case map_of (t_fields_dict (cls_table cls)) key of
             Some f \<Rightarrow> Inr (OAttr (AField f))
           | None \<Rightarrow> Inl (AttributeError key))
      | Inl e \<Rightarrow> Inl e)"

text \<open>\<^verbatim>\<open>_ModelMeta.__setattr__\<close> (lines 88 to 90): it raises, and the class is unchanged.\<close>

definition meta_setattr :: "model_class \<Rightarrow> string \<Rightarrow> aval \<Rightarrow> error + model_class" where
  "meta_setattr cls key v = Inl (ModelSetAttrError (cls_name cls))"

section \<open>Records: \<^verbatim>\<open>_Model\<close>\<close>

text \<open>An instance: its class (whose \<^verbatim>\<open>__table__\<close> is what \<^verbatim>\<open>self.__table__\<close> finds) and its
  \<^verbatim>\<open>__dict__\<close>.\<close>

record model =
  m_cls :: model_class
  m_dict :: "(string \<times> pyval) list"

text \<open>\<^verbatim>\<open>_Model.__getattr__\<close> (lines 109 to 119). Reading \<^verbatim>\<open>pk.field.name\<close> of a table with no
  primary-key field is an \<open>AttributeError\<close>.\<close>

definition model_getattr :: "model \<Rightarrow> string \<Rightarrow> error + pyval" where
  "model_getattr self key =
     (case map_of (m_dict self) key of
        Some v \<Rightarrow> Inr v
      | None \<Rightarrow>
          (case pk_field (t_pk (cls_table (m_cls self))) of
             None \<Rightarrow> Inl (AttributeError ''name'')
           | Some pf \<Rightarrow>
               (if f_name pf = Some key \<or> key \<in> set (map fst (t_fields_dict (cls_table (m_cls self))))
                then Inr PNone
                else Inl (AttributeError key))))"

text \<open>
  \<^verbatim>\<open>_Model.__setattr__(self, key, value, is_loader=False)\<close> (lines 121 to 132). The check
  of the AUTO_INCREMENT primary key does not read \<^verbatim>\<open>is_loader\<close>; the check of the field
  set does.
\<close>

definition model_setattr :: "model \<Rightarrow> string \<Rightarrow> pyval \<Rightarrow> bool \<Rightarrow> error + model" where
  "model_setattr self key v is_loader =
     (let t = cls_table (m_cls self) in
      case (if pk_auto (t_pk t)
            then (case pk_field (t_pk t) of
                    None \<Rightarrow> Some (AttributeError ''name'')
                  | Some pf \<Rightarrow> if f_name pf = Some key then Some ModifyAutoPkError else None)
            else None) of
        Some e \<Rightarrow> Inl e
      | None \<Rightarrow>
          (if \<not> is_loader \<and> key \<notin> set (map fst (t_fields_dict t)) then Inl (AttributeError key)
           else Inr (self\<lparr>m_dict := AList.update key v (m_dict self)\<rparr>)))"

text \<open>\<^verbatim>\<open>_Model.__init__(self, **kwargs)\<close>: one public assignment for each keyword.\<close>

fun init_loop :: "model \<Rightarrow> (string \<times> pyval) list \<Rightarrow> error + model" where
  "init_loop self [] = Inr self"
| "init_loop self (kv # kwargs) =
     (case model_setattr self (fst kv) (snd kv) False of
        Inl e \<Rightarrow> Inl e
      | Inr self' \<Rightarrow> init_loop self' kwargs)"

text \<open>Calling the class, \<^verbatim>\<open>model(**kwargs)\<close>.\<close>

definition model_new :: "model_class \<Rightarrow> (string \<times> pyval) list \<Rightarrow> error + model" where
  "model_new cls kwargs = init_loop \<lparr>m_cls = cls, m_dict = []\<rparr> kwargs"

text \<open>
  The property \<^verbatim>\<open>__self__\<close> (lines 134 to 145): for each field of the table, in order, the
  value of the instance, or the field's default when the value is \<open>None\<close> and the field
  is callable; a value that is still \<open>None\<close> is left out. Registration names every
  field, so a field without a name is read as an \<open>AttributeError\<close>.
\<close>

fun self_loop :: "model \<Rightarrow> field list \<Rightarrow> (string \<times> pyval) list \<Rightarrow> error + (string \<times> pyval) list" where
  "self_loop self [] vals = Inr vals"
| "self_loop self (f # fs) vals =
     (case f_name f of
        None \<Rightarrow> Inl (AttributeError ''None'')
      | Some n \<Rightarrow>
          (case model_getattr self n of
             Inl e \<Rightarrow> Inl e
           | Inr v \<Rightarrow>
               (let v' = (if v = PNone then (case f_default f of Some d \<Rightarrow> d | None \<Rightarrow> v) else v)
                in self_loop self fs (if v' \<noteq> PNone then AList.update n v' vals else vals))))"

definition model_self :: "model \<Rightarrow> error + (string \<times> pyval) list" where
  "model_self self = self_loop self (map snd (t_fields_dict (cls_table (m_cls self)))) []"

section \<open>Row batches: \<^verbatim>\<open>Rows\<close>\<close>

text \<open>
  \<^verbatim>\<open>Rows.__init__(self, rows, columns=None)\<close> is \<^verbatim>\<open>pass\<close>: the object keeps nothing of its
  arguments. The properties \<^verbatim>\<open>columns\<close> and \<^verbatim>\<open>values\<close> are \<^verbatim>\<open>pass\<close> as well and return
  \<open>None\<close>.
\<close>

datatype rows = RowsObject

definition Rows_init :: "pyval \<Rightarrow> aval \<Rightarrow> error + rows" where
  "Rows_init rws columns = Inr RowsObject"

definition Rows_columns :: "rows \<Rightarrow> pyval" where
  "Rows_columns r = PNone"

definition Rows_values :: "rows \<Rightarrow> pyval" where
  "Rows_values r = PNone"

section \<open>Statements, \<^verbatim>\<open>_save\<close> and \<^verbatim>\<open>_remove\<close>\<close>

text \<open>
  Modelled from the spec: \<^verbatim>\<open>tables.Replace\<close>, \<^verbatim>\<open>tables.Delete\<close> and the comparison of a field
  with a value are not in the source. A statement holds what its constructor is given,
  \<^verbatim>\<open>where\<close> adds the predicate, and \<^verbatim>\<open>do\<close> hands the statement to the driver, which answers
  with an execution outcome or fails.
\<close>

datatype predicate = FieldEq field pyval

datatype statement =
    Replace string rows
  | Delete string "predicate option"

fun stmt_where :: "statement \<Rightarrow> predicate \<Rightarrow> statement" where
  "stmt_where (Delete t w) p = Delete t (Some p)"
| "stmt_where (Replace t r) p = Replace t r"

text \<open>\<^verbatim>\<open>ExecResults\<close> (lines 360 to 363).\<close>

record exec_results =
  affected :: pyval
  last_id :: pyval

type_synonym driver = "statement \<Rightarrow> error + exec_results"

text \<open>
  \<^verbatim>\<open>_Model._save\<close> (lines 262 to 268): the snapshot goes into a \<^verbatim>\<open>Rows\<close>, the Replace on
  the table's name is executed, and \<^verbatim>\<open>result.last_id\<close> is assigned to the attribute whose
  name is \<^verbatim>\<open>self.__table__.name\<close>.
\<close>

definition model_save :: "driver \<Rightarrow> model \<Rightarrow> error + (model \<times> exec_results)" where
  "model_save drv self =
     (case model_self self of
        Inl e \<Rightarrow> Inl e
      | Inr snapshot \<Rightarrow>
          (case Rows_init (PList [PDict snapshot]) (AVal PNone) of
             Inl e \<Rightarrow> Inl e
           | Inr rws \<Rightarrow>
               (case drv (Replace (t_name (cls_table (m_cls self))) rws) of
                  Inl e \<Rightarrow> Inl e
                | Inr result \<Rightarrow>
                    (case model_setattr self (t_name (cls_table (m_cls self))) (last_id result) False of
                       Inl e \<Rightarrow> Inl e
                     | Inr self' \<Rightarrow> Inr (self', result)))))"

text \<open>
  \<^verbatim>\<open>_Model._remove\<close> (lines 270 to 279): the primary-key value is read, \<^verbatim>\<open>if not pk\<close>
  raises \<open>RuntimeError\<close>, and otherwise the Delete on the table's name, filtered by the
  primary-key field and that value, is executed.
\<close>

definition model_remove :: "driver \<Rightarrow> model \<Rightarrow> error + exec_results" where
  "model_remove drv self =
     (let t = cls_table (m_cls self) in
      case pk_field (t_pk t) of
        None \<Rightarrow> Inl (AttributeError ''name'')
      | Some pf \<Rightarrow>
          (case (case f_name pf of None \<Rightarrow> Inr PNone | Some n \<Rightarrow> model_getattr self n) of
             Inl e \<Rightarrow> Inl e
           | Inr pk \<Rightarrow>
               (if \<not> truthy pk then Inl RuntimeError
                else drv (stmt_where (Delete (t_name t) None) (FieldEq pf pk)))))"

section \<open>The result codec: \<^verbatim>\<open>load\<close>\<close>

text \<open>What \<^verbatim>\<open>load\<close> returns: a generic mapping (\<^verbatim>\<open>utils.Tdict\<close>, not in the source, read as
  a dict), a record, a plain list, or a \<^verbatim>\<open>FetchResult\<close>.\<close>

datatype loaded =
    LTdict "(string \<times> pyval) list"
  | LModel model
  | LList "loaded list"
  | LFetchResult "model list"

text \<open>\<^verbatim>\<open>_empty\<close> (lines 310 to 320).\<close>

definition empty_result :: "pyval \<Rightarrow> model_class \<Rightarrow> bool \<Rightarrow> error + loaded" where
  "empty_result results cls use_tdict =
     (case results of
        PDict d \<Rightarrow>
          (if use_tdict then Inr (LTdict [])
           else (case model_new cls [] of Inl e \<Rightarrow> Inl e | Inr m \<Rightarrow> Inr (LModel m)))
      | PList xs \<Rightarrow> (if use_tdict then Inr (LList [LTdict []]) else Inr (LFetchResult []))
      | PTuple xs \<Rightarrow> (if use_tdict then Inr (LList [LTdict []]) else Inr (LFetchResult []))
      | _ \<Rightarrow> Inl ValueError)"

text \<open>
  The method \<^verbatim>\<open>set_value\<close> that the loader calls is not in the source: it is the
  parameter \<open>setv\<close> of the loader's functions, taking the record, the key, the value and
  \<^verbatim>\<open>is_loader\<close>.
\<close>

type_synonym setter = "model \<Rightarrow> string \<Rightarrow> pyval \<Rightarrow> bool \<Rightarrow> error + model"

text \<open>The loop of \<^verbatim>\<open>_do\<close>: every item of the row is written through \<^verbatim>\<open>set_value\<close> with
  \<^verbatim>\<open>is_loader=True\<close>.\<close>

fun load_items :: "setter \<Rightarrow> model \<Rightarrow> (string \<times> pyval) list \<Rightarrow> error + model" where
  "load_items setv m [] = Inr m"
| "load_items setv m (kv # kvs) =
     (case setv m (fst kv) (snd kv) True of
        Inl e \<Rightarrow> Inl e
      | Inr m' \<Rightarrow> load_items setv m' kvs)"

definition load_do :: "setter \<Rightarrow> pyval \<Rightarrow> model_class \<Rightarrow> error + model" where
  "load_do setv results cls =
     (case model_new cls [] of
        Inl e \<Rightarrow> Inl e
      | Inr m \<Rightarrow>
          (case results of
             PDict d \<Rightarrow> load_items setv m d
           | _ \<Rightarrow> Inl (AttributeError ''items'')))"

fun load_each :: "setter \<Rightarrow> pyval list \<Rightarrow> model_class \<Rightarrow> error + model list" where
  "load_each setv [] cls = Inr []"
| "load_each setv (r # rs) cls =
     (case load_do setv r cls of
        Inl e \<Rightarrow> Inl e
      | Inr m \<Rightarrow> (case load_each setv rs cls of Inl e \<Rightarrow> Inl e | Inr ms \<Rightarrow> Inr (m # ms)))"

text \<open>\<^verbatim>\<open>_load_to_model\<close> (lines 323 to 337).\<close>

definition load_to_model :: "setter \<Rightarrow> pyval \<Rightarrow> model_class \<Rightarrow> error + loaded" where
  "load_to_model setv results cls =
     (case results of
        PDict d \<Rightarrow> (case load_do setv results cls of Inl e \<Rightarrow> Inl e | Inr m \<Rightarrow> Inr (LModel m))
      | PList rs \<Rightarrow> (case load_each setv rs cls of Inl e \<Rightarrow> Inl e | Inr ms \<Rightarrow> Inr (LFetchResult ms))
      | PTuple rs \<Rightarrow> (case load_each setv rs cls of Inl e \<Rightarrow> Inl e | Inr ms \<Rightarrow> Inr (LFetchResult ms))
      | _ \<Rightarrow> Inl ValueError)"

text \<open>\<^verbatim>\<open>load\<close> (lines 300 to 307); \<^verbatim>\<open>utils.formattdict\<close> is not in the source and is the
  parameter \<open>fmt\<close>.\<close>

definition load ::
  "(pyval \<Rightarrow> error + loaded) \<Rightarrow> setter \<Rightarrow> pyval \<Rightarrow> model_class \<Rightarrow> bool \<Rightarrow> error + loaded" where
  "load fmt setv results cls use_tdict =
     (if \<not> truthy results then empty_result results cls use_tdict
      else if use_tdict then fmt results
      else load_to_model setv results cls)"

section \<open>An example schema\<close>

text \<open>The names \<^verbatim>\<open>Table.DEFAULT\<close> reserves are not in the source; the example takes the
  attributes every class body has.\<close>

definition person_env :: env where
  "person_env = \<lparr>DEFAULT = [''__module__'', ''__qualname__'', ''__doc__''], AIPK = ''id'',
                  SEQUENCE = ASeq []\<rparr>"

definition new_field :: "bool \<Rightarrow> int \<Rightarrow> field" where
  "new_field p a = \<lparr>f_name = None, f_pk = p, f_ai = a, f_default = None\<rparr>"

text \<open>\<^verbatim>\<open>class Person\<close> with the AUTO_INCREMENT primary key \<^verbatim>\<open>id\<close> and the field \<^verbatim>\<open>name\<close>.\<close>

definition person_body :: "(string \<times> aval) list" where
  "person_body =
     [(''__module__'', AVal (PStr ''app'')), (''__qualname__'', AVal (PStr ''Person'')),
      (''id'', AField (new_field True 1)), (''name'', AField (new_field False 0))]"

definition id_field :: field where
  "id_field = \<lparr>f_name = Some ''id'', f_pk = True, f_ai = 1, f_default = None\<rparr>"

definition name_field :: field where
  "name_field = \<lparr>f_name = Some ''name'', f_pk = False, f_ai = 0, f_default = None\<rparr>"

definition person_table :: table where
  "person_table =
     \<lparr>t_database = AVal PNone, t_name = ''person'',
      t_fields_dict = [(''id'', id_field), (''name'', name_field)],
      t_pk = \<lparr>pk_auto = True, pk_field = Some id_field, pk_ai = Some 1\<rparr>,
      t_indexes = [], t_charset = AVal PNone, t_comment = AVal PNone\<rparr>"

definition Person :: model_class where
  "Person = \<lparr>cls_name = ''Person'', cls_table = person_table, cls_attrs = []\<rparr>"

text \<open>The same schema with a primary key that is not AUTO_INCREMENT.\<close>

definition plain_id_field :: field where
  "plain_id_field = \<lparr>f_name = Some ''id'', f_pk = True, f_ai = 0, f_default = None\<rparr>"

definition plain_table :: table where
  "plain_table =
     \<lparr>t_database = AVal PNone, t_name = ''person'',
      t_fields_dict = [(''id'', plain_id_field), (''name'', name_field)],
      t_pk = \<lparr>pk_auto = False, pk_field = Some plain_id_field, pk_ai = None\<rparr>,
      t_indexes = [], t_charset = AVal PNone, t_comment = AVal PNone\<rparr>"

definition PlainPerson :: model_class where
  "PlainPerson = \<lparr>cls_name = ''Person'', cls_table = plain_table, cls_attrs = []\<rparr>"

text \<open>A driver that reports one affected row and the generated key \<open>5\<close>.\<close>

definition ok_driver :: driver where
  "ok_driver st = Inr \<lparr>affected = PInt 1, last_id = PInt 5\<rparr>"


text \<open>Bodies for the primary-key checks: one with no primary key, one with two, one whose
  first primary-key field is named after a later attribute, one with an attribute that
  is neither a field nor reserved.\<close>

definition no_pk_body :: "(string \<times> aval) list" where
  "no_pk_body =
     [(''__module__'', AVal (PStr ''app'')), (''__table__'', AVal (PStr ''people'')),
      (''name'', AField (new_field False 0))]"

definition two_pk_body :: "(string \<times> aval) list" where
  "two_pk_body =
     [(''id'', AField (new_field True 1)), (''name'', AField (new_field False 0)),
      (''code'', AField (new_field True 0)), (''limit'', AVal (PInt 5))]"

definition clash_body :: "(string \<times> aval) list" where
  "clash_body =
     [(''a'', AField ((new_field True 0)\<lparr>f_name := Some ''b''\<rparr>)), (''b'', AField (new_field True 0))]"

definition invalid_body :: "(string \<times> aval) list" where
  "invalid_body = [(''limit'', AVal (PInt 5)), (''name'', AField (new_field False 0))]"

section \<open>The primary-key checks of the field scan\<close>

lemma snd_dict_pop: "snd (dict_pop k d al) = AList.delete k al"
  by (auto simp: dict_pop_def map_of_eq_None_iff split: option.splits)

lemma update_fresh: "k \<notin> fst ` set al \<Longrightarrow> AList.update k v al = al @ [(k, v)]"
  by (induction al) auto

lemma scan_step_other:
  assumes "k \<notin> fst ` set rest" "\<not> is_field v" "k \<in> set (DEFAULT E)"
    "\<And>pf. pk_field p = Some pf \<Longrightarrow> f_name pf \<noteq> Some k"
  shows "scan_step E k ws \<lparr>st_attrs = (k, v) # rest, st_fields = fs, st_pk = p\<rparr>
       = (ws, Inr \<lparr>st_attrs = rest, st_fields = fs, st_pk = p\<rparr>)"
  using assms by (cases v) (auto simp: scan_step_def split: option.splits)

lemma scan_step_plain_field:
  assumes "k \<notin> fst ` set rest" "\<not> f_pk f"
    "\<And>pf. pk_field p = Some pf \<Longrightarrow> f_name pf \<noteq> Some k"
  shows "scan_step E k ws \<lparr>st_attrs = (k, AField f) # rest, st_fields = fs, st_pk = p\<rparr>
       = (ws, Inr \<lparr>st_attrs = rest,
                   st_fields = AList.update k (f\<lparr>f_name := Some (name_or (f_name f) k)\<rparr>) fs,
                   st_pk = p\<rparr>)"
  using assms by (auto simp: scan_step_def Let_def split: option.splits)

lemma scan_step_first_pk:
  assumes "k \<notin> fst ` set rest" "f_pk f" "pk_field p = None"
  shows "\<exists>ws' fs' p'. scan_step E k ws \<lparr>st_attrs = (k, AField f) # rest, st_fields = fs, st_pk = p\<rparr>
       = (ws', Inr \<lparr>st_attrs = rest, st_fields = fs', st_pk = p'\<rparr>)
       \<and> pk_field p' = Some (f\<lparr>f_name := Some (name_or (f_name f) k)\<rparr>)"
  using assms by (auto simp: scan_step_def Let_def split: option.splits)

lemma scan_step_second_pk:
  assumes "f_pk f" "pk_field p = Some pf" "f_name pf \<noteq> Some k"
  shows "scan_step E k ws \<lparr>st_attrs = (k, AField f) # rest, st_fields = fs, st_pk = p\<rparr>
       = (ws, Inl (DuplicatePKError (name_or (f_name f) k)))"
  using assms by (auto simp: scan_step_def Let_def split: option.splits)

lemma scan_no_pk:
  assumes "distinct (map fst (xs @ ys))" "pk_names xs = []" "reserved_ok E xs"
    "\<forall>pf. pk_field p = Some pf \<longrightarrow> f_name pf \<notin> Some ` set (map fst xs)"
  shows "\<exists>fs'. scan E (map fst xs @ ks) ws \<lparr>st_attrs = xs @ ys, st_fields = fs, st_pk = p\<rparr>
       = scan E ks ws \<lparr>st_attrs = ys, st_fields = fs', st_pk = p\<rparr>"
  using assms
proof (induction xs arbitrary: fs)
  case Nil
  then show ?case by auto
next
  case (Cons x xs)
  obtain k v where x: "x = (k, v)" by (cases x)
  have fresh: "k \<notin> fst ` set (xs @ ys)" using Cons.prems(1) x by auto
  have noclash: "\<And>pf. pk_field p = Some pf \<Longrightarrow> f_name pf \<noteq> Some k"
    using Cons.prems(4) x by auto
  have rest: "distinct (map fst (xs @ ys))" "reserved_ok E xs"
    "\<forall>pf. pk_field p = Some pf \<longrightarrow> f_name pf \<notin> Some ` set (map fst xs)"
    using Cons.prems x by (auto simp: reserved_ok_def)
  show ?case
  proof (cases v)
    case (AField f)
    with Cons.prems(2) x have nopk: "\<not> f_pk f" "pk_names xs = []" by (auto split: if_splits)
    from Cons.IH[OF rest(1) nopk(2) rest(2) rest(3)]
    show ?thesis
      using scan_step_plain_field[OF fresh nopk(1) noclash] x AField by simp
  next
    case (AIndex i)
    with Cons.prems x have a: "\<not> is_field v" "k \<in> set (DEFAULT E)" "pk_names xs = []"
      by (auto simp: reserved_ok_def)
    from Cons.IH[OF rest(1) a(3) rest(2) rest(3)]
    show ?thesis using scan_step_other[OF fresh a(1) a(2) noclash] x by simp
  next
    case (AVal i)
    with Cons.prems x have a: "\<not> is_field v" "k \<in> set (DEFAULT E)" "pk_names xs = []"
      by (auto simp: reserved_ok_def)
    from Cons.IH[OF rest(1) a(3) rest(2) rest(3)]
    show ?thesis using scan_step_other[OF fresh a(1) a(2) noclash] x by simp
  next
    case (ASeq i)
    with Cons.prems x have a: "\<not> is_field v" "k \<in> set (DEFAULT E)" "pk_names xs = []"
      by (auto simp: reserved_ok_def)
    from Cons.IH[OF rest(1) a(3) rest(2) rest(3)]
    show ?thesis using scan_step_other[OF fresh a(1) a(2) noclash] x by simp
  qed
qed


lemma scan_dup_after_pk:
  assumes "distinct (map fst (pre @ (k, AField f) # post))" "f_pk f" "reserved_ok E pre"
    "pk_names pre = []" "pk_field p = Some pf"
    "f_name pf \<notin> Some ` set (map fst pre @ [k])"
  shows "snd (scan E (map fst (pre @ (k, AField f) # post)) ws
            \<lparr>st_attrs = pre @ (k, AField f) # post, st_fields = fs, st_pk = p\<rparr>)
       = Inl (DuplicatePKError (name_or (f_name f) k))"
proof -
  have clash: "\<forall>pf'. pk_field p = Some pf' \<longrightarrow> f_name pf' \<notin> Some ` set (map fst pre)"
    using assms(5,6) by auto
  have k: "f_name pf \<noteq> Some k" using assms(6) by auto
  from scan_no_pk[OF assms(1) assms(4) assms(3) clash, where ks = "k # map fst post" and ws = ws and fs = fs]
  obtain fs' where "scan E (map fst pre @ k # map fst post) ws
            \<lparr>st_attrs = pre @ (k, AField f) # post, st_fields = fs, st_pk = p\<rparr>
     = scan E (k # map fst post) ws \<lparr>st_attrs = (k, AField f) # post, st_fields = fs', st_pk = p\<rparr>"
    by blast
  then show ?thesis
    using scan_step_second_pk[OF assms(2) assms(5) k] by simp
qed

lemma scan_dup_second_pk:
  assumes "distinct (map fst (pre @ (k, AField f) # post))" "f_pk f" "reserved_ok E pre"
    "length (pk_names pre) = 1" "pk_field p = None"
    "no_name_clash (pre @ [(k, AField f)])"
  shows "snd (scan E (map fst (pre @ (k, AField f) # post)) ws
            \<lparr>st_attrs = pre @ (k, AField f) # post, st_fields = fs, st_pk = p\<rparr>)
       = Inl (DuplicatePKError (name_or (f_name f) k))"
  using assms
proof (induction pre arbitrary: ws fs)
  case Nil
  then show ?case by simp
next
  case (Cons x pre)
  obtain k0 v0 where x: "x = (k0, v0)" by (cases x)
  have fresh: "k0 \<notin> fst ` set (pre @ (k, AField f) # post)" using Cons.prems(1) x by auto
  have d: "distinct (map fst (pre @ (k, AField f) # post))" using Cons.prems(1) by simp
  have r: "reserved_ok E pre" using Cons.prems(3) by (simp add: reserved_ok_def)
  have noclash: "\<And>pf. pk_field p = Some pf \<Longrightarrow> f_name pf \<noteq> Some k0"
    using Cons.prems(5) by simp
  show ?case
  proof (cases "\<exists>f0. v0 = AField f0 \<and> f_pk f0")
    case True
    then obtain f0 where f0: "v0 = AField f0" "f_pk f0" by blast
    have n: "pk_names pre = []" using Cons.prems(4) x f0 by simp
    have c: "name_or (f_name f0) k0 \<notin> set (map fst (pre @ [(k, AField f)]))"
      using Cons.prems(6) x f0 by simp
    from scan_step_first_pk[OF fresh f0(2) Cons.prems(5), where E = E and ws = ws and fs = fs]
    obtain ws' fs' p' where st: "scan_step E k0 ws
         \<lparr>st_attrs = (k0, AField f0) # pre @ (k, AField f) # post, st_fields = fs, st_pk = p\<rparr>
       = (ws', Inr \<lparr>st_attrs = pre @ (k, AField f) # post, st_fields = fs', st_pk = p'\<rparr>)"
      and p': "pk_field p' = Some (f0\<lparr>f_name := Some (name_or (f_name f0) k0)\<rparr>)"
      by blast
    have c': "f_name (f0\<lparr>f_name := Some (name_or (f_name f0) k0)\<rparr>) \<notin> Some ` set (map fst pre @ [k])"
      using c by auto
    from scan_dup_after_pk[OF d Cons.prems(2) r n p' c', where ws = ws' and fs = fs']
    show ?thesis using st x f0 by simp
  next
    case False
    have n: "length (pk_names pre) = 1" using Cons.prems(4) x False
      by (cases v0) (auto split: if_splits)
    have c: "no_name_clash (pre @ [(k, AField f)])" using Cons.prems(6) x
      by (cases v0) auto
    show ?thesis
    proof (cases v0)
      case (AField f0)
      with False have "\<not> f_pk f0" by simp
      from scan_step_plain_field[OF fresh this noclash, where E = E and ws = ws and fs = fs]
        Cons.IH[OF d Cons.prems(2) r n Cons.prems(5) c]
      show ?thesis using x AField by simp
    next
      case (AIndex i)
      with Cons.prems(3) x have a: "\<not> is_field v0" "k0 \<in> set (DEFAULT E)"
        by (auto simp: reserved_ok_def)
      from scan_step_other[OF fresh a noclash, where ws = ws and fs = fs]
        Cons.IH[OF d Cons.prems(2) r n Cons.prems(5) c]
      show ?thesis using x by simp
    next
      case (AVal i)
      with Cons.prems(3) x have a: "\<not> is_field v0" "k0 \<in> set (DEFAULT E)"
        by (auto simp: reserved_ok_def)
      from scan_step_other[OF fresh a noclash, where ws = ws and fs = fs]
        Cons.IH[OF d Cons.prems(2) r n Cons.prems(5) c]
      show ?thesis using x by simp
    next
      case (ASeq i)
      with Cons.prems(3) x have a: "\<not> is_field v0" "k0 \<in> set (DEFAULT E)"
        by (auto simp: reserved_ok_def)
      from scan_step_other[OF fresh a noclash, where ws = ws and fs = fs]
        Cons.IH[OF d Cons.prems(2) r n Cons.prems(5) c]
      show ?thesis using x by simp
    qed
  qed
qed

lemma scan_step_Inr:
  assumes "scan_step E k ws s = (ws', Inr s')"
  shows "\<exists>v. map_of (st_attrs s) k = Some v \<and> st_attrs s' = AList.delete k (st_attrs s) \<and>
     (case v of
        AField f0 \<Rightarrow>
          st_fields s' = AList.update k (f0\<lparr>f_name := Some (name_or (f_name f0) k)\<rparr>) (st_fields s)
          \<and> (if f_pk f0
               then pk_field (st_pk s) = None
                    \<and> pk_field (st_pk s') = Some (f0\<lparr>f_name := Some (name_or (f_name f0) k)\<rparr>)
               else st_pk s' = st_pk s)
      | _ \<Rightarrow> st_fields s' = st_fields s \<and> st_pk s' = st_pk s)"
proof (cases "map_of (st_attrs s) k")
  case None
  with assms show ?thesis by (simp add: scan_step_def split: if_splits)
next
  case (Some v)
  show ?thesis
  proof (cases v)
    case (AField f0)
    with assms Some show ?thesis
      by (simp add: scan_step_def Let_def split: if_splits) auto
  next
    case (AIndex i)
    with assms Some show ?thesis
      by (simp add: scan_step_def Let_def split: if_splits) auto
  next
    case (AVal i)
    with assms Some show ?thesis
      by (simp add: scan_step_def Let_def split: if_splits) auto
  next
    case (ASeq i)
    with assms Some show ?thesis
      by (simp add: scan_step_def Let_def split: if_splits) auto
  qed
qed


lemma pk_marked_snoc: "pk_marked (fs @ [(k, f)]) = pk_marked fs @ (if f_pk f then [f] else [])"
  by (simp add: pk_marked_def)

lemma keys_delete: "fst ` set (AList.delete k al) = fst ` set al - {k}"
  by (induction al) auto

lemma scan_step_inv:
  assumes "scan_step E k ws s = (ws', Inr s')" "scan_inv s"
  shows "scan_inv s'"
proof -
  from scan_step_Inr[OF assms(1)] obtain v where v: "map_of (st_attrs s) k = Some v"
    and a: "st_attrs s' = AList.delete k (st_attrs s)"
    and c: "case v of
        AField f0 \<Rightarrow>
          st_fields s' = AList.update k (f0\<lparr>f_name := Some (name_or (f_name f0) k)\<rparr>) (st_fields s)
          \<and> (if f_pk f0
               then pk_field (st_pk s) = None
                    \<and> pk_field (st_pk s') = Some (f0\<lparr>f_name := Some (name_or (f_name f0) k)\<rparr>)
               else st_pk s' = st_pk s)
      | _ \<Rightarrow> st_fields s' = st_fields s \<and> st_pk s' = st_pk s"
    by blast
  from v have "k \<in> fst ` set (st_attrs s)" by (metis map_of_eq_None_iff option.distinct(1))
  with assms(2) have fresh: "k \<notin> fst ` set (st_fields s)" by (auto simp: scan_inv_def)
  have disj: "fst ` set (st_fields s) \<inter> fst ` set (st_attrs s) = {}"
    and pm: "pk_marked (st_fields s) = (case pk_field (st_pk s) of None \<Rightarrow> [] | Some f \<Rightarrow> [f])"
    using assms(2) by (simp_all add: scan_inv_def)
  show ?thesis
  proof (cases v)
    case (AField f0)
    let ?f = "f0\<lparr>f_name := Some (name_or (f_name f0) k)\<rparr>"
    from c AField have fs: "st_fields s' = st_fields s @ [(k, ?f)]"
      by (simp add: update_fresh[OF fresh])
    have d': "fst ` set (st_fields s') \<inter> fst ` set (st_attrs s') = {}"
      using disj by (auto simp: fs a keys_delete)
    have pm': "pk_marked (st_fields s') = (case pk_field (st_pk s') of None \<Rightarrow> [] | Some f \<Rightarrow> [f])"
    proof (cases "f_pk f0")
      case True
      with c AField have "pk_field (st_pk s) = None" "pk_field (st_pk s') = Some ?f" by simp_all
      with pm True show ?thesis by (simp add: fs pk_marked_snoc)
    next
      case False
      with c AField have "st_pk s' = st_pk s" by simp
      with pm False show ?thesis by (simp add: fs pk_marked_snoc)
    qed
    from d' pm' show ?thesis by (simp add: scan_inv_def)
  next
    case (AIndex i)
    with c have "st_fields s' = st_fields s" "st_pk s' = st_pk s" by simp_all
    with disj pm show ?thesis by (auto simp: scan_inv_def a keys_delete)
  next
    case (AVal i)
    with c have "st_fields s' = st_fields s" "st_pk s' = st_pk s" by simp_all
    with disj pm show ?thesis by (auto simp: scan_inv_def a keys_delete)
  next
    case (ASeq i)
    with c have "st_fields s' = st_fields s" "st_pk s' = st_pk s" by simp_all
    with disj pm show ?thesis by (auto simp: scan_inv_def a keys_delete)
  qed
qed

lemma scan_keeps_inv: "scan E ks ws s = (ws', Inr s') \<Longrightarrow> scan_inv s \<Longrightarrow> scan_inv s'"
proof (induction ks arbitrary: ws s)
  case Nil
  then show ?case by simp
next
  case (Cons k ks)
  obtain ws1 r where st: "scan_step E k ws s = (ws1, r)" by (cases "scan_step E k ws s")
  show ?case
  proof (cases r)
    case (Inl e)
    with Cons.prems(1) st show ?thesis by simp
  next
    case (Inr s1)
    with Cons.prems(1) st have "scan E ks ws1 s1 = (ws', Inr s')" by simp
    moreover have "scan_inv s1" using scan_step_inv st Inr Cons.prems(2) by blast
    ultimately show ?thesis by (rule Cons.IH)
  qed
qed

lemma prepare_scan_declared:
  "\<exists>ws0. prepare_scan E name attrs =
     (case scan E (map fst (declared attrs)) ws0
             \<lparr>st_attrs = declared attrs, st_fields = [],
              st_pk = \<lparr>pk_auto = False, pk_field = None, pk_ai = None\<rparr>\<rparr> of
        (ws', Inl e) \<Rightarrow> (ws', Inl e)
      | (ws', Inr s) \<Rightarrow>
          (if pk_field (st_pk s) = None then (ws', Inl (NoPKError (py_lower name)))
           else (ws', Inr \<lparr>sc_bound = fst (dict_pop ''__db__'' (AVal PNone) attrs),
                          sc_table_name = py_lower name, sc_state = s\<rparr>)))"
  unfolding prepare_scan_def declared_def Let_def
  by (simp add: case_prod_beta snd_dict_pop) blast

lemma prepare_scan_one_pk:
  assumes "snd (prepare_scan E name attrs) = Inr sc"
  shows "\<exists>f. pk_field (st_pk (sc_state sc)) = Some f \<and> pk_marked (st_fields (sc_state sc)) = [f]"
proof -
  let ?s0 = "\<lparr>st_attrs = declared attrs, st_fields = [],
              st_pk = \<lparr>pk_auto = False, pk_field = None, pk_ai = None\<rparr>\<rparr>"
  have i0: "scan_inv ?s0" by (simp add: scan_inv_def pk_marked_def)
  from prepare_scan_declared[of E name attrs] obtain ws0 where
    ps: "prepare_scan E name attrs =
     (case scan E (map fst (declared attrs)) ws0 ?s0 of
        (ws', Inl e) \<Rightarrow> (ws', Inl e)
      | (ws', Inr s) \<Rightarrow>
          (if pk_field (st_pk s) = None then (ws', Inl (NoPKError (py_lower name)))
           else (ws', Inr \<lparr>sc_bound = fst (dict_pop ''__db__'' (AVal PNone) attrs),
                          sc_table_name = py_lower name, sc_state = s\<rparr>)))"
    by blast
  obtain ws1 r where sc: "scan E (map fst (declared attrs)) ws0 ?s0 = (ws1, r)"
    by (cases "scan E (map fst (declared attrs)) ws0 ?s0")
  show ?thesis
  proof (cases r)
    case (Inl e)
    with assms ps sc show ?thesis by simp
  next
    case (Inr s)
    with assms ps sc have pk: "pk_field (st_pk s) \<noteq> None" and eq: "sc_state sc = s"
      by (auto split: if_splits)
    from scan_keeps_inv[OF sc[unfolded Inr] i0] pk eq show ?thesis
      by (auto simp: scan_inv_def)
  qed
qed

lemma prepare_no_pk:
  assumes "distinct (map fst attrs)" "pk_names (declared attrs) = []" "reserved_ok E (declared attrs)"
  shows "snd (prepare E name attrs) = Inl (NoPKError (py_lower name))"
proof -
  let ?p0 = "\<lparr>pk_auto = False, pk_field = None, pk_ai = None\<rparr>"
  from prepare_scan_declared[of E name attrs] obtain ws0 where
    ps: "prepare_scan E name attrs =
     (case scan E (map fst (declared attrs)) ws0
          \<lparr>st_attrs = declared attrs, st_fields = [], st_pk = ?p0\<rparr> of
        (ws', Inl e) \<Rightarrow> (ws', Inl e)
      | (ws', Inr s) \<Rightarrow>
          (if pk_field (st_pk s) = None then (ws', Inl (NoPKError (py_lower name)))
           else (ws', Inr \<lparr>sc_bound = fst (dict_pop ''__db__'' (AVal PNone) attrs),
                          sc_table_name = py_lower name, sc_state = s\<rparr>)))"
    by blast
  have d: "distinct (map fst (declared attrs @ []))"
    using assms(1) by (simp add: declared_def distinct_delete)
  have c: "\<forall>pf. pk_field ?p0 = Some pf
      \<longrightarrow> f_name pf \<notin> Some ` set (map fst (declared attrs))" by simp
  from scan_no_pk[OF d assms(2) assms(3) c, where ks = "[]" and fs = "[]" and ws = ws0]
  obtain fs' where "scan E (map fst (declared attrs)) ws0
      \<lparr>st_attrs = declared attrs, st_fields = [], st_pk = ?p0\<rparr>
    = (ws0, Inr \<lparr>st_attrs = [], st_fields = fs', st_pk = ?p0\<rparr>)"
    by auto
  then show ?thesis
    by (simp add: prepare_def ps)
qed

lemma prepare_second_pk:
  assumes "distinct (map fst attrs)" "declared attrs = pre @ (k, AField f) # post" "f_pk f"
    "length (pk_names pre) = 1" "reserved_ok E pre" "no_name_clash (pre @ [(k, AField f)])"
  shows "snd (prepare E name attrs) = Inl (DuplicatePKError (name_or (f_name f) k))"
proof -
  let ?p0 = "\<lparr>pk_auto = False, pk_field = None, pk_ai = None\<rparr>"
  from prepare_scan_declared[of E name attrs] obtain ws0 where
    ps: "prepare_scan E name attrs =
     (case scan E (map fst (declared attrs)) ws0
          \<lparr>st_attrs = declared attrs, st_fields = [], st_pk = ?p0\<rparr> of
        (ws', Inl e) \<Rightarrow> (ws', Inl e)
      | (ws', Inr s) \<Rightarrow>
          (if pk_field (st_pk s) = None then (ws', Inl (NoPKError (py_lower name)))
           else (ws', Inr \<lparr>sc_bound = fst (dict_pop ''__db__'' (AVal PNone) attrs),
                          sc_table_name = py_lower name, sc_state = s\<rparr>)))"
    by blast
  have d: "distinct (map fst (pre @ (k, AField f) # post))"
    using assms(1) unfolding assms(2)[symmetric] by (simp add: declared_def distinct_delete)
  have p: "pk_field ?p0 = None" by simp
  from scan_dup_second_pk[OF d assms(3) assms(5) assms(4) p assms(6), where fs = "[]" and ws = ws0]
  have "snd (scan E (map fst (declared attrs)) ws0
            \<lparr>st_attrs = declared attrs, st_fields = [], st_pk = ?p0\<rparr>)
       = Inl (DuplicatePKError (name_or (f_name f) k))"
    by (simp add: assms(2))
  then show ?thesis
    by (cases "scan E (map fst (declared attrs)) ws0
            \<lparr>st_attrs = declared attrs, st_fields = [], st_pk = ?p0\<rparr>")
       (simp add: prepare_def ps)
qed

lemma scan_step_invalid:
  assumes "\<not> is_field v" "k \<notin> set (DEFAULT E)"
    "\<forall>pf. pk_field p = Some pf \<longrightarrow> f_name pf \<noteq> Some k"
  shows "scan_step E k ws \<lparr>st_attrs = (k, v) # rest, st_fields = fs, st_pk = p\<rparr>
       = (ws, Inl (InvalidFieldType (Some k)))"
  using assms by (cases v) (auto simp: scan_step_def split: option.splits)

lemma scan_step_clash:
  assumes "pk_field p = Some pf" "f_name pf = Some k"
  shows "scan_step E k ws \<lparr>st_attrs = al, st_fields = fs, st_pk = p\<rparr>
       = (ws, Inl (DuplicateFieldNameError k))"
  using assms by (simp add: scan_step_def)

lemma no_name_clash_append:
  "no_name_clash (xs @ ys) \<Longrightarrow> no_name_clash xs \<and> (\<forall>n \<in> set (pk_names xs). n \<notin> set (map fst ys))"
proof (induction xs)
  case Nil
  then show ?case by simp
next
  case (Cons x xs)
  obtain k v where x: "x = (k, v)" by (cases x)
  show ?case using Cons x by (cases v) (auto split: if_splits)
qed

lemma pk_names_keys: "pk_names xs = [] \<Longrightarrow> no_name_clash xs"
proof (induction xs)
  case Nil
  then show ?case by simp
next
  case (Cons x xs)
  obtain k v where x: "x = (k, v)" by (cases x)
  show ?case using Cons x by (cases v) (auto split: if_splits)
qed

lemma scan_prefix_ok:
  assumes "distinct (map fst (pre @ ys))" "reserved_ok E pre" "length (pk_names pre) \<le> 1"
    "no_name_clash pre" "pk_field p = None"
  shows "\<exists>ws' fs' p'. scan E (map fst pre @ ks) ws \<lparr>st_attrs = pre @ ys, st_fields = fs, st_pk = p\<rparr>
       = scan E ks ws' \<lparr>st_attrs = ys, st_fields = fs', st_pk = p'\<rparr>
     \<and> (pk_names pre = [] \<longrightarrow> pk_field p' = None)
     \<and> (\<forall>n. pk_names pre = [n] \<longrightarrow> (\<exists>pf. pk_field p' = Some pf \<and> f_name pf = Some n))"
  using assms
proof (induction pre arbitrary: ws fs)
  case Nil
  then show ?case by auto
next
  case (Cons x pre)
  obtain k0 v0 where x: "x = (k0, v0)" by (cases x)
  have fresh: "k0 \<notin> fst ` set (pre @ ys)" using Cons.prems(1) x by auto
  have d: "distinct (map fst (pre @ ys))" using Cons.prems(1) by simp
  have r: "reserved_ok E pre" using Cons.prems(2) by (simp add: reserved_ok_def)
  have noclash: "\<And>pf. pk_field p = Some pf \<Longrightarrow> f_name pf \<noteq> Some k0"
    using Cons.prems(5) by simp
  show ?case
  proof (cases "\<exists>f0. v0 = AField f0 \<and> f_pk f0")
    case True
    then obtain f0 where f0: "v0 = AField f0" "f_pk f0" by blast
    let ?n = "name_or (f_name f0) k0"
    have n: "pk_names pre = []" using Cons.prems(3) x f0 by simp
    have pn: "pk_names (x # pre) = [?n]" using n x f0 by simp
    have c: "?n \<notin> set (map fst pre)" using Cons.prems(4) x f0 by simp
    from scan_step_first_pk[OF fresh f0(2) Cons.prems(5), where E = E and ws = ws and fs = fs]
    obtain ws' fs' p' where st: "scan_step E k0 ws
         \<lparr>st_attrs = (k0, AField f0) # pre @ ys, st_fields = fs, st_pk = p\<rparr>
       = (ws', Inr \<lparr>st_attrs = pre @ ys, st_fields = fs', st_pk = p'\<rparr>)"
      and p': "pk_field p' = Some (f0\<lparr>f_name := Some ?n\<rparr>)"
      by blast
    have c': "\<forall>pf. pk_field p' = Some pf \<longrightarrow> f_name pf \<notin> Some ` set (map fst pre)"
      using c p' by auto
    from scan_no_pk[OF d n r c', where ks = ks and ws = ws' and fs = fs']
    obtain fs'' where "scan E (map fst pre @ ks) ws' \<lparr>st_attrs = pre @ ys, st_fields = fs', st_pk = p'\<rparr>
       = scan E ks ws' \<lparr>st_attrs = ys, st_fields = fs'', st_pk = p'\<rparr>"
      by blast
    then have "scan E (map fst (x # pre) @ ks) ws \<lparr>st_attrs = (x # pre) @ ys, st_fields = fs, st_pk = p\<rparr>
       = scan E ks ws' \<lparr>st_attrs = ys, st_fields = fs'', st_pk = p'\<rparr>"
      using st x f0 by simp
    moreover have "\<exists>pf. pk_field p' = Some pf \<and> f_name pf = Some ?n" using p' by simp
    ultimately show ?thesis using pn by fastforce
  next
    case False
    have n: "pk_names (x # pre) = pk_names pre" using x False
      by (cases v0) (auto split: if_splits)
    have l: "length (pk_names pre) \<le> 1" using Cons.prems(3) n by simp
    have c: "no_name_clash pre" using Cons.prems(4) x by (cases v0) auto
    have step: "\<exists>fs1. scan_step E k0 ws \<lparr>st_attrs = (k0, v0) # pre @ ys, st_fields = fs, st_pk = p\<rparr>
       = (ws, Inr \<lparr>st_attrs = pre @ ys, st_fields = fs1, st_pk = p\<rparr>)"
    proof (cases "is_field v0")
      case True
      then obtain f0 where f0: "v0 = AField f0" by (cases v0) auto
      with False have "\<not> f_pk f0" by simp
      from scan_step_plain_field[OF fresh this noclash, where E = E and ws = ws and fs = fs]
      show ?thesis using f0 by blast
    next
      case nf: False
      with Cons.prems(2) x have "k0 \<in> set (DEFAULT E)" by (auto simp: reserved_ok_def)
      from scan_step_other[OF fresh nf this noclash, where ws = ws and fs = fs]
      show ?thesis by blast
    qed
    then obtain fs1 where st: "scan_step E k0 ws \<lparr>st_attrs = (k0, v0) # pre @ ys, st_fields = fs, st_pk = p\<rparr>
       = (ws, Inr \<lparr>st_attrs = pre @ ys, st_fields = fs1, st_pk = p\<rparr>)" by blast
    from Cons.IH[OF d r l c Cons.prems(5), of ws fs1]
    show ?thesis using st x n by simp
  qed
qed

lemma scan_stops_at:
  assumes "distinct (map fst (pre @ (k, v) # post))" "reserved_ok E pre"
    "length (pk_names pre) \<le> 1" "no_name_clash pre"
    and step: "\<And>ws' fs' p'. (pk_names pre = [] \<longrightarrow> pk_field p' = None) \<Longrightarrow>
        (\<forall>n. pk_names pre = [n] \<longrightarrow> (\<exists>pf. pk_field p' = Some pf \<and> f_name pf = Some n)) \<Longrightarrow>
        snd (scan_step E k ws' \<lparr>st_attrs = (k, v) # post, st_fields = fs', st_pk = p'\<rparr>) = Inl e"
  shows "snd (scan E (map fst (pre @ (k, v) # post)) ws
            \<lparr>st_attrs = pre @ (k, v) # post, st_fields = [],
             st_pk = \<lparr>pk_auto = False, pk_field = None, pk_ai = None\<rparr>\<rparr>) = Inl e"
proof -
  let ?p0 = "\<lparr>pk_auto = False, pk_field = None, pk_ai = None\<rparr>"
  have p: "pk_field ?p0 = None" by simp
  from scan_prefix_ok[OF assms(1) assms(2) assms(3) assms(4) p,
      where ks = "k # map fst post" and ws = ws and fs = "[]"]
  obtain ws' fs' p' where
    sc: "scan E (map fst pre @ k # map fst post) ws
           \<lparr>st_attrs = pre @ (k, v) # post, st_fields = [], st_pk = ?p0\<rparr>
       = scan E (k # map fst post) ws' \<lparr>st_attrs = (k, v) # post, st_fields = fs', st_pk = p'\<rparr>"
    and a: "pk_names pre = [] \<longrightarrow> pk_field p' = None"
    and b: "\<forall>n. pk_names pre = [n] \<longrightarrow> (\<exists>pf. pk_field p' = Some pf \<and> f_name pf = Some n)"
    by blast
  from step[OF a b, of ws' fs'] have
    "snd (scan_step E k ws' \<lparr>st_attrs = (k, v) # post, st_fields = fs', st_pk = p'\<rparr>) = Inl e" .
  then have "snd (scan E (k # map fst post) ws' \<lparr>st_attrs = (k, v) # post, st_fields = fs', st_pk = p'\<rparr>) = Inl e"
    by (cases "scan_step E k ws' \<lparr>st_attrs = (k, v) # post, st_fields = fs', st_pk = p'\<rparr>") simp
  with sc show ?thesis by simp
qed

lemma prepare_scan_error:
  assumes "\<And>ws0. snd (scan E (map fst (declared attrs)) ws0
            \<lparr>st_attrs = declared attrs, st_fields = [],
             st_pk = \<lparr>pk_auto = False, pk_field = None, pk_ai = None\<rparr>\<rparr>) = Inl e"
  shows "snd (prepare E name attrs) = Inl e"
proof -
  let ?s0 = "\<lparr>st_attrs = declared attrs, st_fields = [],
             st_pk = \<lparr>pk_auto = False, pk_field = None, pk_ai = None\<rparr>\<rparr>"
  from prepare_scan_declared[of E name attrs] obtain ws0 where
    ps: "prepare_scan E name attrs =
     (case scan E (map fst (declared attrs)) ws0 ?s0 of
        (ws', Inl e) \<Rightarrow> (ws', Inl e)
      | (ws', Inr s) \<Rightarrow>
          (if pk_field (st_pk s) = None then (ws', Inl (NoPKError (py_lower name)))
           else (ws', Inr \<lparr>sc_bound = fst (dict_pop ''__db__'' (AVal PNone) attrs),
                          sc_table_name = py_lower name, sc_state = s\<rparr>)))"
    by blast
  from assms[of ws0] show ?thesis
    by (cases "scan E (map fst (declared attrs)) ws0 ?s0") (simp add: prepare_def ps)
qed

lemma prepare_stops_at:
  assumes "distinct (map fst attrs)" "declared attrs = pre @ (k, v) # post" "reserved_ok E pre"
    "length (pk_names pre) \<le> 1" "no_name_clash pre"
    and step: "\<And>ws' fs' p'. (pk_names pre = [] \<longrightarrow> pk_field p' = None) \<Longrightarrow>
        (\<forall>n. pk_names pre = [n] \<longrightarrow> (\<exists>pf. pk_field p' = Some pf \<and> f_name pf = Some n)) \<Longrightarrow>
        snd (scan_step E k ws' \<lparr>st_attrs = (k, v) # post, st_fields = fs', st_pk = p'\<rparr>) = Inl e"
  shows "snd (prepare E name attrs) = Inl e"
proof -
  have d: "distinct (map fst (pre @ (k, v) # post))"
    using assms(1) unfolding assms(2)[symmetric] by (simp add: declared_def distinct_delete)
  show ?thesis
    by (rule prepare_scan_error) (simp only: assms(2), rule scan_stops_at[OF d assms(3) assms(4) assms(5) step])
qed

lemma prepare_invalid_field:
  assumes "distinct (map fst attrs)" "declared attrs = pre @ (k, v) # post"
    "\<not> is_field v" "k \<notin> set (DEFAULT E)" "reserved_ok E pre"
    "length (pk_names pre) \<le> 1" "no_name_clash (pre @ [(k, v)])"
  shows "snd (prepare E name attrs) = Inl (InvalidFieldType (Some k))"
proof -
  from no_name_clash_append[OF assms(7)] have c: "no_name_clash pre"
    and nk: "\<forall>n \<in> set (pk_names pre). n \<noteq> k" by auto
  show ?thesis
  proof (rule prepare_stops_at[OF assms(1) assms(2) assms(5) assms(6) c])
    fix ws' :: "warning list" and fs' :: "(string \<times> field) list" and p' :: pk_info
    assume a: "pk_names pre = [] \<longrightarrow> pk_field p' = None"
      and b: "\<forall>n. pk_names pre = [n] \<longrightarrow> (\<exists>pf. pk_field p' = Some pf \<and> f_name pf = Some n)"
    have "\<forall>pf. pk_field p' = Some pf \<longrightarrow> f_name pf \<noteq> Some k"
    proof (cases "pk_names pre")
      case Nil
      with a show ?thesis by simp
    next
      case (Cons n ns)
      with assms(6) have "pk_names pre = [n]" by simp
      with b nk show ?thesis by auto
    qed
    from scan_step_invalid[OF assms(3) assms(4) this]
    show "snd (scan_step E k ws' \<lparr>st_attrs = (k, v) # post, st_fields = fs', st_pk = p'\<rparr>)
        = Inl (InvalidFieldType (Some k))" by simp
  qed
qed

lemma prepare_duplicate_name:
  assumes "distinct (map fst attrs)" "declared attrs = pre @ (k, v) # post"
    "reserved_ok E pre" "pk_names pre = [k]" "no_name_clash pre"
  shows "snd (prepare E name attrs) = Inl (DuplicateFieldNameError k)"
proof -
  have l: "length (pk_names pre) \<le> 1" using assms(4) by simp
  show ?thesis
  proof (rule prepare_stops_at[OF assms(1) assms(2) assms(3) l assms(5)])
    fix ws' :: "warning list" and fs' :: "(string \<times> field) list" and p' :: pk_info
    assume "\<forall>n. pk_names pre = [n] \<longrightarrow> (\<exists>pf. pk_field p' = Some pf \<and> f_name pf = Some n)"
    with assms(4) obtain pf where "pk_field p' = Some pf" "f_name pf = Some k" by auto
    from scan_step_clash[OF this]
    show "snd (scan_step E k ws' \<lparr>st_attrs = (k, v) # post, st_fields = fs', st_pk = p'\<rparr>)
        = Inl (DuplicateFieldNameError k)" by simp
  qed
qed

lemma person_scan:
  "prepare_scan person_env ''Person'' person_body =
     ([NoTableNameWarning ''Person''],
      Inr \<lparr>sc_bound = AVal PNone, sc_table_name = ''person'',
           sc_state = \<lparr>st_attrs = [],
                        st_fields = [(''id'', id_field), (''name'', name_field)],
                        st_pk = \<lparr>pk_auto = True, pk_field = Some id_field, pk_ai = Some 1\<rparr>\<rparr>\<rparr>)"
  by (simp add: prepare_scan_def dict_pop_def scan_step_def person_env_def person_body_def
      new_field_def id_field_def name_field_def name_or_def py_lower_def lower_char_def Let_def)

text \<open>
  C1, as the code has it. For a class body with distinct keys the guards of the scan
  decide in declaration order. If no declared field is marked primary key and every
  other attribute bears a reserved name, registration fails with \<open>NoPKError\<close>, which
  names the lower-cased class name when that name is ASCII. If the scan reaches a second
  field marked primary key (every attribute before it that is not a field bears a
  reserved name, and no attribute up to it has the name of the registered primary key
  as its key), registration fails with \<open>DuplicatePKError\<close> at that field, whatever follows
  it, and the error names that field when its value does not occur earlier in the body.
  If the scan reaches an attribute that is no field and bears no reserved name, with at
  most one primary key registered before it, registration fails with \<open>InvalidFieldType\<close>
  for that attribute. If the scan reaches an attribute whose key is the name of the
  registered primary key, registration fails with \<open>DuplicateFieldNameError\<close> for that key.
  And whenever the scan and the primary-key check pass, exactly one collected field is
  marked primary key, and it is the registered one.
\<close>

theorem prepare_primary_key_policy:
  assumes "distinct (map fst attrs)"
  shows "(pk_names (declared attrs) = [] \<and> reserved_ok E (declared attrs) \<longrightarrow>
            (\<exists>tn. snd (prepare E name attrs) = Inl (NoPKError tn))
            \<and> (is_ascii name \<longrightarrow> snd (prepare E name attrs) = Inl (NoPKError (py_lower name))))
     \<and> (\<forall>pre k f post.
            declared attrs = pre @ (k, AField f) # post \<and> f_pk f \<and> length (pk_names pre) = 1
            \<and> reserved_ok E pre \<and> no_name_clash (pre @ [(k, AField f)]) \<longrightarrow>
            (\<exists>n. snd (prepare E name attrs) = Inl (DuplicatePKError n))
            \<and> (AField f \<notin> snd ` set pre \<longrightarrow>
                 snd (prepare E name attrs) = Inl (DuplicatePKError (name_or (f_name f) k))))
     \<and> (\<forall>pre k v post.
            declared attrs = pre @ (k, v) # post \<and> \<not> is_field v \<and> k \<notin> set (DEFAULT E)
            \<and> reserved_ok E pre \<and> length (pk_names pre) \<le> 1 \<and> no_name_clash (pre @ [(k, v)]) \<longrightarrow>
            snd (prepare E name attrs) = Inl (InvalidFieldType (Some k)))
     \<and> (\<forall>pre k v post.
            declared attrs = pre @ (k, v) # post \<and> reserved_ok E pre \<and> pk_names pre = [k]
            \<and> no_name_clash pre \<longrightarrow>
            snd (prepare E name attrs) = Inl (DuplicateFieldNameError k))
     \<and> (\<forall>sc. snd (prepare_scan E name attrs) = Inr sc \<longrightarrow>
            (\<exists>f. pk_field (st_pk (sc_state sc)) = Some f
                 \<and> pk_marked (st_fields (sc_state sc)) = [f]))"
proof (intro conjI allI impI)
  assume "pk_names (declared attrs) = [] \<and> reserved_ok E (declared attrs)"
  then have r: "snd (prepare E name attrs) = Inl (NoPKError (py_lower name))"
    using prepare_no_pk[OF assms] by blast
  then show "\<exists>tn. snd (prepare E name attrs) = Inl (NoPKError tn)" by blast
  from r show "snd (prepare E name attrs) = Inl (NoPKError (py_lower name))" .
next
  fix pre k f post
  assume "declared attrs = pre @ (k, AField f) # post \<and> f_pk f \<and> length (pk_names pre) = 1
            \<and> reserved_ok E pre \<and> no_name_clash (pre @ [(k, AField f)])"
  then have r: "snd (prepare E name attrs) = Inl (DuplicatePKError (name_or (f_name f) k))"
    using prepare_second_pk[OF assms] by blast
  then show "\<exists>n. snd (prepare E name attrs) = Inl (DuplicatePKError n)" by blast
  from r show "snd (prepare E name attrs) = Inl (DuplicatePKError (name_or (f_name f) k))" .
next
  fix pre k v post
  assume "declared attrs = pre @ (k, v) # post \<and> \<not> is_field v \<and> k \<notin> set (DEFAULT E)
            \<and> reserved_ok E pre \<and> length (pk_names pre) \<le> 1 \<and> no_name_clash (pre @ [(k, v)])"
  then show "snd (prepare E name attrs) = Inl (InvalidFieldType (Some k))"
    using prepare_invalid_field[OF assms] by blast
next
  fix pre k v post
  assume "declared attrs = pre @ (k, v) # post \<and> reserved_ok E pre \<and> pk_names pre = [k]
            \<and> no_name_clash pre"
  then show "snd (prepare E name attrs) = Inl (DuplicateFieldNameError k)"
    using prepare_duplicate_name[OF assms] by blast
next
  fix sc
  assume "snd (prepare_scan E name attrs) = Inr sc"
  then show "\<exists>f. pk_field (st_pk (sc_state sc)) = Some f \<and> pk_marked (st_fields (sc_state sc)) = [f]"
    by (rule prepare_scan_one_pk)
qed

theorem prepare_primary_key_policy_witness:
  "snd (prepare person_env ''Person'' no_pk_body) = Inl (NoPKError ''person'')
   \<and> snd (prepare person_env ''Person'' two_pk_body) = Inl (DuplicatePKError ''code'')
   \<and> snd (prepare person_env ''Person'' invalid_body) = Inl (InvalidFieldType (Some ''limit''))
   \<and> snd (prepare person_env ''Person'' clash_body) = Inl (DuplicateFieldNameError ''b'')
   \<and> (\<exists>sc. snd (prepare_scan person_env ''Person'' person_body) = Inr sc
           \<and> pk_field (st_pk (sc_state sc)) = Some id_field
           \<and> pk_marked (st_fields (sc_state sc)) = [id_field])"
proof -
  have d1: "distinct (map fst no_pk_body)" by (simp add: no_pk_body_def)
  have d2: "distinct (map fst two_pk_body)" by (simp add: two_pk_body_def)
  have d3: "distinct (map fst invalid_body)" by (simp add: invalid_body_def)
  have d4: "distinct (map fst clash_body)" by (simp add: clash_body_def)
  have d5: "distinct (map fst person_body)" by (simp add: person_body_def)
  have a: "snd (prepare person_env ''Person'' no_pk_body) = Inl (NoPKError ''person'')"
    using prepare_primary_key_policy[OF d1, of person_env "''Person''", THEN conjunct1]
    by (simp add: declared_def no_pk_body_def reserved_ok_def person_env_def new_field_def
        py_lower_def lower_char_def is_ascii_def)
  have b: "snd (prepare person_env ''Person'' two_pk_body) = Inl (DuplicatePKError ''code'')"
    using prepare_primary_key_policy[OF d2, of person_env "''Person''", THEN conjunct2, THEN conjunct1,
        rule_format, of "[(''id'', AField (new_field True 1)), (''name'', AField (new_field False 0))]"
        "''code''" "new_field True 0" "[(''limit'', AVal (PInt 5))]"]
    by (simp add: declared_def two_pk_body_def reserved_ok_def person_env_def new_field_def
        name_or_def)
  have c: "snd (prepare person_env ''Person'' invalid_body) = Inl (InvalidFieldType (Some ''limit''))"
    using prepare_primary_key_policy[OF d3, of person_env "''Person''", THEN conjunct2, THEN conjunct2,
        THEN conjunct1, rule_format, of "[]" "''limit''" "AVal (PInt 5)"
        "[(''name'', AField (new_field False 0))]"]
    by (simp add: declared_def invalid_body_def reserved_ok_def person_env_def)
  have d: "snd (prepare person_env ''Person'' clash_body) = Inl (DuplicateFieldNameError ''b'')"
    using prepare_primary_key_policy[OF d4, of person_env "''Person''", THEN conjunct2, THEN conjunct2,
        THEN conjunct2, THEN conjunct1, rule_format,
        of "[(''a'', AField ((new_field True 0)\<lparr>f_name := Some ''b''\<rparr>))]" "''b''"
        "AField (new_field True 0)" "[]"]
    by (simp add: declared_def clash_body_def reserved_ok_def new_field_def name_or_def)
  have e: "\<exists>f. pk_field (st_pk (sc_state (projr (snd (prepare_scan person_env ''Person'' person_body))))) = Some f
       \<and> pk_marked (st_fields (sc_state (projr (snd (prepare_scan person_env ''Person'' person_body))))) = [f]"
    using prepare_primary_key_policy[OF d5, of person_env "''Person''", THEN conjunct2, THEN conjunct2,
        THEN conjunct2, THEN conjunct2, rule_format,
        of "projr (snd (prepare_scan person_env ''Person'' person_body))"]
    by (simp add: person_scan)
  from a b c d e show ?thesis by (simp add: person_scan)
qed

theorem prepare_primary_key_counterexample:
  "pk_names (declared clash_body) = [''b'', ''b'']
   \<and> snd (prepare person_env ''Person'' clash_body) = Inl (DuplicateFieldNameError ''b'')
   \<and> pk_names (declared invalid_body) = []
   \<and> snd (prepare person_env ''Person'' invalid_body) = Inl (InvalidFieldType (Some ''limit''))"
  by (simp add: prepare_def prepare_scan_def dict_pop_def scan_step_def person_env_def
      clash_body_def invalid_body_def declared_def new_field_def name_or_def Let_def)

section \<open>Registration never completes\<close>

lemma prepare_table_TypeError: "prepare_table E ws sc = (ws, Inl TypeError)"
  by (simp add: prepare_table_def isinstance1_def split: prod.splits)

text \<open>
  C2: whenever the field scan and the primary-key check pass, \<^verbatim>\<open>__prepare__\<close> raises
  \<open>TypeError\<close> at the index validation, with the warnings of the scan emitted; so it
  never returns, for any class name and any class body, and no table is built.
\<close>

theorem prepare_raises_TypeError:
  "(\<forall>sc. snd (prepare_scan E name attrs) = Inr sc \<longrightarrow>
      prepare E name attrs = (fst (prepare_scan E name attrs), Inl TypeError))
   \<and> (\<forall>r. snd (prepare E name attrs) \<noteq> Inr r)"
  by (auto simp: prepare_def prepare_table_TypeError split: prod.splits sum.splits)

theorem prepare_raises_TypeError_witness:
  "snd (prepare_scan person_env ''Person'' person_body) =
     Inr \<lparr>sc_bound = AVal PNone, sc_table_name = ''person'',
          sc_state = \<lparr>st_attrs = [],
                       st_fields = [(''id'', id_field), (''name'', name_field)],
                       st_pk = \<lparr>pk_auto = True, pk_field = Some id_field, pk_ai = Some 1\<rparr>\<rparr>\<rparr>
   \<and> prepare person_env ''Person'' person_body = ([NoTableNameWarning ''Person''], Inl TypeError)"
  using prepare_raises_TypeError [of person_env "''Person''" person_body]
  by (simp add: person_scan)

section \<open>The class is frozen\<close>

text \<open>
  C5: every attribute assignment on a model class, whatever the key and the value,
  fails with \<open>ModelSetAttrError\<close> (the spec's SchemaFrozenError) and returns no changed
  class, so the table of the class is never mutated through it.
\<close>

theorem meta_setattr_always_fails:
  "meta_setattr cls key v = Inl (ModelSetAttrError (cls_name cls))"
  by (simp add: meta_setattr_def)

section \<open>The table name\<close>

lemma prepare_scan_table_name:
  "snd (prepare_scan E name attrs) = Inr sc \<Longrightarrow> sc_table_name sc = py_lower name"
  by (auto simp: prepare_scan_def Let_def split: prod.splits sum.splits if_splits)

text \<open>
  C3, at a class body that gives \<^verbatim>\<open>__table__ = 'people'\<close>: no warning is emitted, and the
  table name that registration goes on with is still the lower-cased class name,
  \<open>person\<close>; it is also the name in the message of \<open>NoPKError\<close>. Line 25 assigns it
  outside the \<^verbatim>\<open>if\<close> of line 20.
\<close>

theorem explicit_table_name_overwritten:
  "map_of ((''__table__'', AVal (PStr ''people'')) # person_body) ''__table__'' = Some (AVal (PStr ''people''))
   \<and> prepare_scan person_env ''Person'' ((''__table__'', AVal (PStr ''people'')) # person_body) =
     ([],
      Inr \<lparr>sc_bound = AVal PNone, sc_table_name = ''person'',
           sc_state = \<lparr>st_attrs = [],
                        st_fields = [(''id'', id_field), (''name'', name_field)],
                        st_pk = \<lparr>pk_auto = True, pk_field = Some id_field, pk_ai = Some 1\<rparr>\<rparr>\<rparr>)
   \<and> prepare person_env ''Person'' no_pk_body = ([], Inl (NoPKError ''person''))"
  by (simp add: prepare_def prepare_scan_def dict_pop_def scan_step_def person_env_def person_body_def
      no_pk_body_def new_field_def id_field_def name_field_def name_or_def py_lower_def
      lower_char_def Let_def)

section \<open>Writing the primary key of a record\<close>

lemma model_setattr_auto_pk:
  assumes "pk_auto (t_pk (cls_table (m_cls self)))"
    "pk_field (t_pk (cls_table (m_cls self))) = Some pf" "f_name pf = Some key"
  shows "model_setattr self key v is_loader = Inl ModifyAutoPkError"
  using assms by (simp add: model_setattr_def)

text \<open>
  C4, at a record of the example class, whose primary key \<^verbatim>\<open>id\<close> is AUTO_INCREMENT: the
  public assignment of \<^verbatim>\<open>id\<close> fails with \<open>ModifyAutoPkError\<close>, and so does the assignment
  with \<^verbatim>\<open>is_loader\<close> set, and with it the loading of a row that has the \<^verbatim>\<open>id\<close> column
  when \<^verbatim>\<open>set_value\<close> hands its arguments to \<^verbatim>\<open>__setattr__\<close>.
\<close>

theorem loader_cannot_set_auto_pk:
  "model_setattr \<lparr>m_cls = Person, m_dict = []\<rparr> ''id'' (PInt 7) False = Inl ModifyAutoPkError
   \<and> model_setattr \<lparr>m_cls = Person, m_dict = []\<rparr> ''id'' (PInt 7) True = Inl ModifyAutoPkError
   \<and> load_to_model model_setattr (PDict [(''id'', PInt 7), (''name'', PStr ''Alice'')]) Person
       = Inl ModifyAutoPkError"
  by (simp add: model_setattr_def load_to_model_def load_do_def model_new_def
      Person_def person_table_def id_field_def name_field_def)

section \<open>The empty-result policy\<close>

text \<open>
  C6, as the code has it: an empty mapping gives an empty generic mapping or a fresh
  record with no value set, an empty list or tuple gives a list of one empty generic
  mapping or an empty \<^verbatim>\<open>FetchResult\<close>, and an absent result (\<open>None\<close>) is not read as a
  mapping: it fails with \<open>ValueError\<close>.
\<close>

theorem load_empty_policy:
  "load fmt setv (PDict []) cls True = Inr (LTdict [])
   \<and> load fmt setv (PDict []) cls False = Inr (LModel \<lparr>m_cls = cls, m_dict = []\<rparr>)
   \<and> load fmt setv (PList []) cls True = Inr (LList [LTdict []])
   \<and> load fmt setv (PList []) cls False = Inr (LFetchResult [])
   \<and> load fmt setv (PTuple []) cls True = Inr (LList [LTdict []])
   \<and> load fmt setv (PTuple []) cls False = Inr (LFetchResult [])
   \<and> load fmt setv PNone cls use_tdict = Inl ValueError"
  by (simp add: load_def empty_result_def model_new_def)

theorem load_absent_counterexample:
  "load (\<lambda>r. Inl TypeError) model_setattr PNone Person True = Inl ValueError
   \<and> load (\<lambda>r. Inl TypeError) model_setattr PNone Person False = Inl ValueError"
  by (simp add: load_def empty_result_def)

section \<open>Row batches\<close>

text \<open>
  C7, at the spec's batch with the second tuple cut to one value, built with the two
  columns \<^verbatim>\<open>name\<close> and \<^verbatim>\<open>id\<close>: the construction succeeds where the claim asks for a
  \<open>ValueError\<close>, and the values of the batch are \<open>None\<close>, as are its columns: nothing was
  aligned. \<^verbatim>\<open>Rows\<close> is a stub, \<^verbatim>\<open>pass\<close> in each of its three methods.
\<close>

theorem Rows_ignores_arity:
  "Rows_init (PList [PTuple [PStr ''Bob'', PStr ''Foo''], PTuple [PStr ''Herb'']])
       (ASeq [AField name_field, AField plain_id_field]) = Inr RowsObject
   \<and> Rows_values RowsObject = PNone
   \<and> Rows_columns RowsObject = PNone"
  by (simp add: Rows_init_def Rows_values_def Rows_columns_def)

section \<open>Saving and removing a record\<close>

text \<open>
  C8, at a record of the example class with a plain primary key \<^verbatim>\<open>id\<close> and the table
  name \<open>person\<close>: the snapshot is taken and the Replace is executed, then the generated
  key is assigned to the attribute \<^verbatim>\<open>person\<close>, the table's name, which is no field: the
  save fails with \<open>AttributeError\<close> and \<^verbatim>\<open>id\<close> is not written.
\<close>

theorem save_writes_table_name:
  "model_self \<lparr>m_cls = PlainPerson, m_dict = [(''name'', PStr ''Alice'')]\<rparr> = Inr [(''name'', PStr ''Alice'')]
   \<and> model_save ok_driver \<lparr>m_cls = PlainPerson, m_dict = [(''name'', PStr ''Alice'')]\<rparr>
       = Inl (AttributeError ''person'')"
  by (simp add: model_save_def model_self_def model_getattr_def model_setattr_def Rows_init_def
      ok_driver_def PlainPerson_def plain_table_def plain_id_field_def name_field_def)

text \<open>
  C10, as the code has it, for a record whose table has a named primary-key field:
  remove fails with \<open>RuntimeError\<close> when the primary-key value is unset and when it is
  set to a value Python reads as false (\<open>0\<close>, the empty string); for every other value
  it executes the Delete on the table's name filtered by the primary-key field and that
  value, and returns the driver's answer.
\<close>

theorem remove_needs_truthy_pk:
  assumes "pk_field (t_pk (cls_table (m_cls self))) = Some pf" "f_name pf = Some n"
  shows "(map_of (m_dict self) n = None \<longrightarrow> model_remove drv self = Inl RuntimeError)
     \<and> (\<forall>v. map_of (m_dict self) n = Some v \<longrightarrow>
           model_remove drv self =
             (if truthy v
              then drv (Delete (t_name (cls_table (m_cls self))) (Some (FieldEq pf v)))
              else Inl RuntimeError))"
  using assms by (auto simp: model_remove_def model_getattr_def)

theorem remove_needs_truthy_pk_witness:
  "model_remove ok_driver \<lparr>m_cls = PlainPerson, m_dict = [(''name'', PStr ''Alice'')]\<rparr> = Inl RuntimeError
   \<and> model_remove ok_driver \<lparr>m_cls = PlainPerson, m_dict = [(''id'', PInt 7)]\<rparr>
       = ok_driver (Delete ''person'' (Some (FieldEq plain_id_field (PInt 7))))"
proof -
  have a: "pk_field (t_pk (cls_table (m_cls \<lparr>m_cls = PlainPerson, m_dict = [(''name'', PStr ''Alice'')]\<rparr>))) = Some plain_id_field"
    by (simp add: PlainPerson_def plain_table_def)
  have b: "pk_field (t_pk (cls_table (m_cls \<lparr>m_cls = PlainPerson, m_dict = [(''id'', PInt 7)]\<rparr>))) = Some plain_id_field"
    by (simp add: PlainPerson_def plain_table_def)
  have n: "f_name plain_id_field = Some ''id''" by (simp add: plain_id_field_def)
  from remove_needs_truthy_pk[OF a n, of ok_driver] remove_needs_truthy_pk[OF b n, of ok_driver]
  show ?thesis by (simp add: PlainPerson_def plain_table_def)
qed

theorem remove_zero_pk_counterexample:
  "map_of (m_dict \<lparr>m_cls = PlainPerson, m_dict = [(''id'', PInt 0)]\<rparr>) ''id'' = Some (PInt 0)
   \<and> model_remove ok_driver \<lparr>m_cls = PlainPerson, m_dict = [(''id'', PInt 0)]\<rparr> = Inl RuntimeError"
  by (simp add: model_remove_def model_getattr_def PlainPerson_def plain_table_def plain_id_field_def)

section \<open>Attribute lookup on a model class\<close>

lemma meta_getattr_recursion:
  "type_getattribute cls key = None \<Longrightarrow> meta_getattr depth cls key = Inl RecursionError"
  by (induction depth) (simp_all add: class_getattr_def)

text \<open>
  C9, at the declared field \<^verbatim>\<open>name\<close> of the example class: the field is in the table's
  field mapping, and the lookup never reaches it. Whatever call depth is left, the hook
  calls \<^verbatim>\<open>getattr\<close>, which enters the hook again, until \<open>RecursionError\<close> is raised.
\<close>

theorem field_lookup_RecursionError:
  "map_of (t_fields_dict (cls_table Person)) ''name'' = Some name_field
   \<and> (\<forall>depth. meta_getattr depth Person ''name'' = Inl RecursionError)"
proof -
  have "type_getattribute Person ''name'' = None"
    by (simp add: type_getattribute_def Person_def)
  then show ?thesis
    by (simp add: meta_getattr_recursion Person_def person_table_def)
qed

end
